theory Spec2Isabelle
  imports Complex_Main "HOL-Library.Word" "HOL-Library.Multiset"
begin

section \<open>The auction engine of dispatch-bidder (auction.go)\<close>

text \<open>
  The Go package keeps every bidder behind a pointer (\<^verbatim>\<open>[]*Bidder\<close>) and mutates the
  records in place, so the model has an explicit store: a pointer is either nil or an
  address, and the heap maps every address to the record it holds. A nil dereference is
  the outcome \<open>NilDeref\<close> (Go panics there); the state reached at that moment is returned
  with it, since the writes made before a panic stay in memory.

  Conventions of the embedding:
  \<^item> \<^verbatim>\<open>float64\<close> amounts are real numbers: \<open>+\<close>, \<open><\<close>, \<open>\<le>\<close> and \<open>=\<close> are exact, as
    the specification reads them. Rounding, infinities and NaN are outside the model.
  \<^item> \<^verbatim>\<open>time.Time\<close> is an instant on a linear time line (an integer count of clock
    units) and \<^verbatim>\<open>Before\<close> is \<open><\<close>.
  \<^item> \<^verbatim>\<open>time.Now()\<close> reads an external clock: the clock is a function from the number
    of readings made so far to the instant returned, and the world counts the readings.
  \<^item> \<^verbatim>\<open>uuid.UUID\<close> is a 16-byte array: a 128-bit word. \<^verbatim>\<open>uuid.New()\<close> is a
    parameter of the function that calls it.
  \<^item> the embedded \<^verbatim>\<open>sync.RWMutex\<close> is not modelled: every function below is one
    uninterrupted run, and the receiver \<^verbatim>\<open>a\<close> is not nil.
\<close>

subsection \<open>Data model\<close>

type_synonym uuid = "128 word"
type_synonym time = int
type_synonym addr = nat

datatype ptr = NilPtr | Ptr addr

record Bidder =
  ID :: uuid
  Name :: string
  StartingBid :: real
  MaxBid :: real
  CurrentBid :: real
  AutoIncrement :: real
  LastBidTime :: time

record NewAuctionConfig =
  Bidders :: "ptr list"

record Auction =
  AuctionID :: uuid
  Bidders :: "ptr list"

type_synonym clock = "nat \<Rightarrow> time"

record world =
  heap :: "addr \<Rightarrow> Bidder"
  ticks :: nat

datatype 'a result = Returns 'a | NilDeref

subsection \<open>Writes to a bidder record\<close>

text \<open>\<^verbatim>\<open>p.CurrentBid = v\<close>\<close>

definition store_CurrentBid :: "addr \<Rightarrow> real \<Rightarrow> world \<Rightarrow> world" where
  "store_CurrentBid p v w = w\<lparr>heap := (heap w)(p := (heap w p)\<lparr>CurrentBid := v\<rparr>)\<rparr>"

text \<open>\<^verbatim>\<open>p.LastBidTime = time.Now()\<close>: one reading of the clock.\<close>

definition store_LastBidTime :: "clock \<Rightarrow> addr \<Rightarrow> world \<Rightarrow> world" where
  "store_LastBidTime clk p w =
     w\<lparr>heap := (heap w)(p := (heap w p)\<lparr>LastBidTime := clk (ticks w)\<rparr>),
       ticks := Suc (ticks w)\<rparr>"

subsection \<open>PlaceBid\<close>

text \<open>
  The three errors of \<^verbatim>\<open>PlaceBid\<close>, each with the two amounts its message formats:
  the bid and the bound it was compared with.
\<close>

datatype bid_error =
    BidBelowStartingBid real real
  | BidAboveMaxBid real real
  | BidNotHigherThanCurrent real real

text \<open>
  The loop over \<^verbatim>\<open>a.Bidders\<close> (lines 77-85). \<open>b\<close> is the address of the bidder who
  placed the bid; its \<open>ID\<close> is read from the heap at every iteration, as the source does.
\<close>

fun sweep :: "clock \<Rightarrow> addr \<Rightarrow> ptr list \<Rightarrow> world \<Rightarrow> unit result \<times> world" where
  "sweep clk b [] w = (Returns (), w)"
| "sweep clk b (NilPtr # rest) w = (NilDeref, w)"
| "sweep clk b (Ptr p # rest) w =
     (if ID (heap w p) \<noteq> ID (heap w b) then
        (if CurrentBid (heap w p) + AutoIncrement (heap w p) \<le> MaxBid (heap w p) then
           sweep clk b rest
             (store_LastBidTime clk p
               (store_CurrentBid p (CurrentBid (heap w p) + AutoIncrement (heap w p)) w))
         else sweep clk b rest w)
      else sweep clk b rest w)"

text \<open>
  \<^verbatim>\<open>PlaceBid\<close> returns \<^verbatim>\<open>nil\<close> (\<open>Returns None\<close>), an error (\<open>Returns (Some e)\<close>) or
  panics on a nil pointer; the second component is the world it leaves behind.
\<close>

definition PlaceBid ::
  "clock \<Rightarrow> Auction \<Rightarrow> ptr \<Rightarrow> real \<Rightarrow> world \<Rightarrow> bid_error option result \<times> world" where
  "PlaceBid clk a bidder bidAmount w =
     (case bidder of
        NilPtr \<Rightarrow> (NilDeref, w)
      | Ptr b \<Rightarrow>
          if bidAmount < StartingBid (heap w b) then
            (Returns (Some (BidBelowStartingBid bidAmount (StartingBid (heap w b)))), w)
          else if bidAmount > MaxBid (heap w b) then
            (Returns (Some (BidAboveMaxBid bidAmount (MaxBid (heap w b)))), w)
          else if bidAmount \<le> CurrentBid (heap w b) then
            (Returns (Some (BidNotHigherThanCurrent bidAmount (CurrentBid (heap w b)))), w)
          else
            (case sweep clk b (Bidders a)
                    (store_LastBidTime clk b (store_CurrentBid b bidAmount w)) of
               (NilDeref, w') \<Rightarrow> (NilDeref, w')
             | (Returns u, w') \<Rightarrow> (Returns None, w')))"

subsection \<open>DetermineWinner\<close>

text \<open>
  \<^verbatim>\<open>isWinner(currentWinner, bidder)\<close>. Go evaluates \<^verbatim>\<open>||\<close> from the left and stops at
  the first true disjunct: with no current winner the bidder is not dereferenced at all;
  otherwise \<^verbatim>\<open>bidder.CurrentBid\<close> is read first, which panics on a nil bidder.
\<close>

fun isWinner :: "(addr \<Rightarrow> Bidder) \<Rightarrow> ptr \<Rightarrow> ptr \<Rightarrow> bool result" where
  "isWinner h NilPtr bidder = Returns True"
| "isWinner h (Ptr c) NilPtr = NilDeref"
| "isWinner h (Ptr c) (Ptr b) =
     Returns (CurrentBid (h b) > CurrentBid (h c) \<or>
              (CurrentBid (h b) = CurrentBid (h c) \<and> LastBidTime (h b) < LastBidTime (h c)))"

text \<open>The loop of \<^verbatim>\<open>DetermineWinner\<close>, from the current value of \<^verbatim>\<open>winner\<close>.\<close>

fun scan_winner :: "(addr \<Rightarrow> Bidder) \<Rightarrow> ptr \<Rightarrow> ptr list \<Rightarrow> ptr result" where
  "scan_winner h winner [] = Returns winner"
| "scan_winner h winner (bidder # rest) =
     (case isWinner h winner bidder of
        NilDeref \<Rightarrow> NilDeref
      | Returns True \<Rightarrow> scan_winner h bidder rest
      | Returns False \<Rightarrow> scan_winner h winner rest)"

definition DetermineWinner :: "Auction \<Rightarrow> world \<Rightarrow> ptr result" where
  "DetermineWinner a w = scan_winner (heap w) NilPtr (Bidders a)"

subsection \<open>Validation and NewAuction\<close>

datatype bidder_error =
    InvalidStartingBid real
  | InvalidMaxBid real real
  | InvalidIncrement real

datatype auction_error =
    InsufficientBidders
  | DuplicateBidder uuid
  | InvalidBidder uuid bidder_error

text \<open>\<^verbatim>\<open>NewAuction\<close> wraps what \<^verbatim>\<open>validateAuctionData\<close> returns.\<close>

datatype new_auction_error = InvalidAuctionData auction_error

fun validateBidder :: "(addr \<Rightarrow> Bidder) \<Rightarrow> ptr \<Rightarrow> bidder_error option result" where
  "validateBidder h NilPtr = NilDeref"
| "validateBidder h (Ptr b) =
     (if StartingBid (h b) \<le> 0 then Returns (Some (InvalidStartingBid (StartingBid (h b))))
      else if MaxBid (h b) < StartingBid (h b) then
        Returns (Some (InvalidMaxBid (MaxBid (h b)) (StartingBid (h b))))
      else if AutoIncrement (h b) \<le> 0 then
        Returns (Some (InvalidIncrement (AutoIncrement (h b))))
      else Returns None)"

text \<open>The loop of \<^verbatim>\<open>validateAuctionData\<close> with its map \<^verbatim>\<open>seenIDs\<close>.\<close>

fun validate_bidders ::
  "(addr \<Rightarrow> Bidder) \<Rightarrow> (uuid \<rightharpoonup> bool) \<Rightarrow> ptr list \<Rightarrow> auction_error option result" where
  "validate_bidders h seenIDs [] = Returns None"
| "validate_bidders h seenIDs (NilPtr # rest) = NilDeref"
| "validate_bidders h seenIDs (Ptr b # rest) =
     (case seenIDs (ID (h b)) of
        Some exists \<Rightarrow> Returns (Some (DuplicateBidder (ID (h b))))
      | None \<Rightarrow>
          (case validateBidder h (Ptr b) of
             NilDeref \<Rightarrow> NilDeref
           | Returns (Some err) \<Rightarrow> Returns (Some (InvalidBidder (ID (h b)) err))
           | Returns None \<Rightarrow> validate_bidders h (seenIDs(ID (h b) \<mapsto> True)) rest))"

definition validateAuctionData ::
  "(addr \<Rightarrow> Bidder) \<Rightarrow> NewAuctionConfig \<Rightarrow> auction_error option result" where
  "validateAuctionData h na =
     (if length (NewAuctionConfig.Bidders na) \<le> 1 then Returns (Some InsufficientBidders)
      else validate_bidders h Map.empty (NewAuctionConfig.Bidders na))"

text \<open>\<open>fresh\<close> is the identifier \<^verbatim>\<open>uuid.New()\<close> returns.\<close>

definition NewAuction ::
  "uuid \<Rightarrow> NewAuctionConfig \<Rightarrow> world \<Rightarrow> (new_auction_error + Auction) result" where
  "NewAuction fresh na w =
     (case validateAuctionData (heap w) na of
        NilDeref \<Rightarrow> NilDeref
      | Returns (Some err) \<Rightarrow> Returns (Inl (InvalidAuctionData err))
      | Returns None \<Rightarrow>
          Returns (Inr \<lparr>AuctionID = fresh, Bidders = NewAuctionConfig.Bidders na\<rparr>))"

subsection \<open>The sweep in another order\<close>

text \<open>
  \<^verbatim>\<open>PlaceBid\<close> with its loop taken over \<open>order\<close> instead of \<^verbatim>\<open>a.Bidders\<close>; everything
  else is as in \<open>PlaceBid\<close>. It is the comparison point for the statement that the order of
  the sweep cannot be observed.
\<close>

definition PlaceBid_in_order ::
  "ptr list \<Rightarrow> clock \<Rightarrow> Auction \<Rightarrow> ptr \<Rightarrow> real \<Rightarrow> world \<Rightarrow> bid_error option result \<times> world"
  where
  "PlaceBid_in_order order clk a bidder bidAmount w =
     (case bidder of
        NilPtr \<Rightarrow> (NilDeref, w)
      | Ptr b \<Rightarrow>
          if bidAmount < StartingBid (heap w b) then
            (Returns (Some (BidBelowStartingBid bidAmount (StartingBid (heap w b)))), w)
          else if bidAmount > MaxBid (heap w b) then
            (Returns (Some (BidAboveMaxBid bidAmount (MaxBid (heap w b)))), w)
          else if bidAmount \<le> CurrentBid (heap w b) then
            (Returns (Some (BidNotHigherThanCurrent bidAmount (CurrentBid (heap w b)))), w)
          else
            (case sweep clk b order
                    (store_LastBidTime clk b (store_CurrentBid b bidAmount w)) of
               (NilDeref, w') \<Rightarrow> (NilDeref, w')
             | (Returns u, w') \<Rightarrow> (Returns None, w')))"

subsection \<open>The scenario of auction\_test.go\<close>

text \<open>
  \<^verbatim>\<open>createBidder\<close> allocates a record: \<open>p\<close> is the address the allocation returns and
  \<open>fresh\<close> the identifier \<^verbatim>\<open>uuid.New()\<close> returns. The current bid starts at the starting
  bid and the clock is read once.
\<close>

definition createBidder ::
  "clock \<Rightarrow> uuid \<Rightarrow> addr \<Rightarrow> string \<Rightarrow> real \<Rightarrow> real \<Rightarrow> real \<Rightarrow> world \<Rightarrow> world" where
  "createBidder clk fresh p name startingBid maxBid increment w =
     w\<lparr>heap := (heap w)(p :=
          \<lparr>ID = fresh, Name = name, StartingBid = startingBid, MaxBid = maxBid,
           CurrentBid = startingBid, AutoIncrement = increment,
           LastBidTime = clk (ticks w)\<rparr>),
       ticks := Suc (ticks w)\<rparr>"

text \<open>
  The inner loop of the test (lines 69-78): every bidder whose next bid is affordable
  places it; \<open>active\<close> becomes true when a bid is accepted.
\<close>

fun bidding_round ::
  "clock \<Rightarrow> Auction \<Rightarrow> ptr list \<Rightarrow> bool \<Rightarrow> world \<Rightarrow> bool result \<times> world" where
  "bidding_round clk a [] active w = (Returns active, w)"
| "bidding_round clk a (NilPtr # rest) active w = (NilDeref, w)"
| "bidding_round clk a (Ptr b # rest) active w =
     (if CurrentBid (heap w b) + AutoIncrement (heap w b) \<le> MaxBid (heap w b) then
        (case PlaceBid clk a (Ptr b) (CurrentBid (heap w b) + AutoIncrement (heap w b)) w of
           (NilDeref, w') \<Rightarrow> (NilDeref, w')
         | (Returns None, w') \<Rightarrow> bidding_round clk a rest True w'
         | (Returns (Some err), w') \<Rightarrow> bidding_round clk a rest active w')
      else bidding_round clk a rest active w)"

text \<open>
  The outer loop (\<^verbatim>\<open>for active\<close>) has no bound in the source: the model runs it on
  fuel, one unit for each round, and \<open>None\<close> means the fuel ran out before the loop ended.
\<close>

fun bidding_rounds ::
  "nat \<Rightarrow> clock \<Rightarrow> Auction \<Rightarrow> ptr list \<Rightarrow> world \<Rightarrow> (unit result \<times> world) option" where
  "bidding_rounds 0 clk a bidders w = None"
| "bidding_rounds (Suc fuel) clk a bidders w =
     (case bidding_round clk a bidders False w of
        (NilDeref, w') \<Rightarrow> Some (NilDeref, w')
      | (Returns True, w') \<Rightarrow> bidding_rounds fuel clk a bidders w'
      | (Returns False, w') \<Rightarrow> Some (Returns (), w'))"

text \<open>
  The body of one test case, after its bidders were created: build the auction, bid until
  a round accepts nothing, and read the winner's name. When \<^verbatim>\<open>NewAuction\<close> fails the
  test goes on with a nil auction and panics at its first use; a nil winner panics at
  \<^verbatim>\<open>winner.Name\<close>.
\<close>

definition run_scenario ::
  "nat \<Rightarrow> clock \<Rightarrow> uuid \<Rightarrow> ptr list \<Rightarrow> world \<Rightarrow> string result option" where
  "run_scenario fuel clk fresh bidders w =
     (case NewAuction fresh \<lparr>NewAuctionConfig.Bidders = bidders\<rparr> w of
        NilDeref \<Rightarrow> Some NilDeref
      | Returns (Inl err) \<Rightarrow> Some NilDeref
      | Returns (Inr auction) \<Rightarrow>
          (case bidding_rounds fuel clk auction bidders w of
             None \<Rightarrow> None
           | Some (NilDeref, w') \<Rightarrow> Some NilDeref
           | Some (Returns u, w') \<Rightarrow>
               (case DetermineWinner auction w' of
                  NilDeref \<Rightarrow> Some NilDeref
                | Returns NilPtr \<Rightarrow> Some NilDeref
                | Returns (Ptr winner) \<Rightarrow> Some (Returns (Name (heap w' winner))))))"

text \<open>The bidders of "Auction \#1", created in the order of the test table.\<close>

definition auction1_bidders :: "clock \<Rightarrow> uuid \<Rightarrow> uuid \<Rightarrow> uuid \<Rightarrow> world \<Rightarrow> world" where
  "auction1_bidders clk i1 i2 i3 w =
     createBidder clk i3 2 ''Pat'' 55 85 5
       (createBidder clk i2 1 ''John'' 60 82 2
         (createBidder clk i1 0 ''Sasha'' 50 80 3 w))"

text \<open>
  A world in which nothing was allocated yet: every address holds the zero value of
  \<^verbatim>\<open>Bidder\<close> and the clock was never read.
\<close>

definition empty_world :: world where
  "empty_world =
     \<lparr>heap = (\<lambda>p. \<lparr>ID = 0, Name = [], StartingBid = 0, MaxBid = 0, CurrentBid = 0,
                     AutoIncrement = 0, LastBidTime = 0\<rparr>),
      ticks = 0\<rparr>"

text \<open>
  The world of "Auction \#1" right after its three bidders were created (identifiers 1, 2
  and 3, a clock that advances by one unit at every reading), and the auction over them.
\<close>

definition reference_world :: world where
  "reference_world = auction1_bidders int 1 2 3 empty_world"

definition reference_auction :: Auction where
  "reference_auction = \<lparr>AuctionID = 9, Bidders = [Ptr 0, Ptr 1, Ptr 2]\<rparr>"

subsection \<open>A client's sequence of calls\<close>


subsection \<open>One visit of the sweep, time aside\<close>

text \<open>
  What one iteration of the sweep does to the record \<open>r\<close> it visits when the bid was
  placed by a bidder of identifier \<open>i\<close>, leaving \<open>LastBidTime\<close> as it is. Used in proofs
  only.
\<close>

definition visit :: "uuid \<Rightarrow> Bidder \<Rightarrow> Bidder" where
  "visit i r =
     (if ID r \<noteq> i \<and> CurrentBid r + AutoIncrement r \<le> MaxBid r
      then r\<lparr>CurrentBid := CurrentBid r + AutoIncrement r\<rparr> else r)"

subsection \<open>The condition of isWinner\<close>

text \<open>
  \<open>outbids h b c\<close>: the condition under which \<open>isWinner\<close> lets the bidder at \<open>b\<close>
  replace the current winner at \<open>c\<close>. Used in proofs only.
\<close>

definition outbids :: "(addr \<Rightarrow> Bidder) \<Rightarrow> addr \<Rightarrow> addr \<Rightarrow> bool" where
  "outbids h b c \<longleftrightarrow>
     CurrentBid (h b) > CurrentBid (h c) \<or>
     (CurrentBid (h b) = CurrentBid (h c) \<and> LastBidTime (h b) < LastBidTime (h c))"

subsection \<open>More worlds to evaluate on\<close>

text \<open>
  Three bidders of which the last two have the same bounds, current bid and increment,
  created like the bidders of the test.
\<close>

definition tie_bidders :: "clock \<Rightarrow> world \<Rightarrow> world" where
  "tie_bidders clk w =
     createBidder clk 3 2 ''Cy'' 50 100 5
       (createBidder clk 2 1 ''Bob'' 50 100 5
         (createBidder clk 1 0 ''Ann'' 10 100 1 w))"




section \<open>Properties\<close>

subsection \<open>The two writes and the sweep\<close>

lemma raise_params [simp]:
  "ID (heap (store_LastBidTime clk p (store_CurrentBid p v w)) q) = ID (heap w q)"
  "Name (heap (store_LastBidTime clk p (store_CurrentBid p v w)) q) = Name (heap w q)"
  "StartingBid (heap (store_LastBidTime clk p (store_CurrentBid p v w)) q)
     = StartingBid (heap w q)"
  "MaxBid (heap (store_LastBidTime clk p (store_CurrentBid p v w)) q) = MaxBid (heap w q)"
  "AutoIncrement (heap (store_LastBidTime clk p (store_CurrentBid p v w)) q)
     = AutoIncrement (heap w q)"
  by (simp_all add: store_LastBidTime_def store_CurrentBid_def)

lemma raise_other [simp]:
  "q \<noteq> p \<Longrightarrow> heap (store_LastBidTime clk p (store_CurrentBid p v w)) q = heap w q"
  by (simp add: store_LastBidTime_def store_CurrentBid_def)

lemma raise_CurrentBid [simp]:
  "CurrentBid (heap (store_LastBidTime clk p (store_CurrentBid p v w)) p) = v"
  by (simp add: store_LastBidTime_def store_CurrentBid_def)

lemma raise_LastBidTime [simp]:
  "LastBidTime (heap (store_LastBidTime clk p (store_CurrentBid p v w)) p) = clk (ticks w)"
  by (simp add: store_LastBidTime_def store_CurrentBid_def)

lemma raise_ticks [simp]:
  "ticks (store_LastBidTime clk p (store_CurrentBid p v w)) = Suc (ticks w)"
  by (simp add: store_LastBidTime_def store_CurrentBid_def)

lemma sweep_ticks_mono: "ticks w \<le> ticks (snd (sweep clk b ps w))"
proof (induction clk b ps w rule: sweep.induct)
  case (3 clk b p rest w)
  then show ?case by (auto intro: order_trans)
qed simp_all

lemma sweep_ID [simp]: "ID (heap (snd (sweep clk b ps w)) q) = ID (heap w q)"
  by (induction clk b ps w rule: sweep.induct) simp_all

lemma sweep_Name [simp]: "Name (heap (snd (sweep clk b ps w)) q) = Name (heap w q)"
  by (induction clk b ps w rule: sweep.induct) simp_all

lemma sweep_StartingBid [simp]:
  "StartingBid (heap (snd (sweep clk b ps w)) q) = StartingBid (heap w q)"
  by (induction clk b ps w rule: sweep.induct) simp_all

lemma sweep_MaxBid [simp]: "MaxBid (heap (snd (sweep clk b ps w)) q) = MaxBid (heap w q)"
  by (induction clk b ps w rule: sweep.induct) simp_all

lemma sweep_AutoIncrement [simp]:
  "AutoIncrement (heap (snd (sweep clk b ps w)) q) = AutoIncrement (heap w q)"
  by (induction clk b ps w rule: sweep.induct) simp_all


text \<open>It leaves alone every record its list does not point to.\<close>

lemma sweep_frame:
  "Ptr q \<notin> set ps \<Longrightarrow> heap (snd (sweep clk b ps w)) q = heap w q"
  by (induction clk b ps w rule: sweep.induct) auto

text \<open>It panics exactly when its list holds a nil pointer.\<close>

lemma sweep_Returns_iff: "fst (sweep clk b ps w) = Returns () \<longleftrightarrow> NilPtr \<notin> set ps"
  by (induction clk b ps w rule: sweep.induct) auto

subsection \<open>Rejected bids\<close>

text \<open>
  Claim C3. With a bidder pointer that is not nil, \<open>PlaceBid\<close> applies three checks in
  order and the first that fails decides the error: the amount is below the bidder's
  starting bid, above its maximum bid, or not above its current bid. In each of these
  cases the world is returned as it was: nothing is written before all three checks
  pass. When all three pass no error is returned and the world does change.
\<close>

theorem PlaceBid_rejects_without_mutation:
  "(x < StartingBid (heap w b) \<longrightarrow>
      PlaceBid clk a (Ptr b) x w =
        (Returns (Some (BidBelowStartingBid x (StartingBid (heap w b)))), w)) \<and>
   (\<not> x < StartingBid (heap w b) \<and> x > MaxBid (heap w b) \<longrightarrow>
      PlaceBid clk a (Ptr b) x w =
        (Returns (Some (BidAboveMaxBid x (MaxBid (heap w b)))), w)) \<and>
   (\<not> x < StartingBid (heap w b) \<and> \<not> x > MaxBid (heap w b) \<and> x \<le> CurrentBid (heap w b) \<longrightarrow>
      PlaceBid clk a (Ptr b) x w =
        (Returns (Some (BidNotHigherThanCurrent x (CurrentBid (heap w b)))), w)) \<and>
   (\<not> x < StartingBid (heap w b) \<and> \<not> x > MaxBid (heap w b) \<and> \<not> x \<le> CurrentBid (heap w b) \<longrightarrow>
      (\<forall>e. fst (PlaceBid clk a (Ptr b) x w) \<noteq> Returns (Some e)) \<and>
      snd (PlaceBid clk a (Ptr b) x w) \<noteq> w)"
proof -
  let ?w1 = "store_LastBidTime clk b (store_CurrentBid b x w)"
  have t: "ticks w < ticks (snd (sweep clk b (Bidders a) ?w1))"
    using sweep_ticks_mono [of ?w1 clk b "Bidders a"] by simp
  have pass: "snd (PlaceBid clk a (Ptr b) x w) \<noteq> w"
    if "\<not> x < StartingBid (heap w b)" "\<not> x > MaxBid (heap w b)" "\<not> x \<le> CurrentBid (heap w b)"
  proof
    assume "snd (PlaceBid clk a (Ptr b) x w) = w"
    with that have "snd (sweep clk b (Bidders a) ?w1) = w"
      by (simp add: PlaceBid_def split: prod.splits result.splits)
    with t show False by simp
  qed
  show ?thesis
    using pass by (auto simp: PlaceBid_def split: prod.splits result.splits)
qed

theorem PlaceBid_rejects_without_mutation_witness:
  "PlaceBid int reference_auction (Ptr 0) 40 reference_world =
     (Returns (Some (BidBelowStartingBid 40 50)), reference_world) \<and>
   PlaceBid int reference_auction (Ptr 0) 90 reference_world =
     (Returns (Some (BidAboveMaxBid 90 80)), reference_world) \<and>
   PlaceBid int reference_auction (Ptr 0) 50 reference_world =
     (Returns (Some (BidNotHigherThanCurrent 50 50)), reference_world) \<and>
   snd (PlaceBid int reference_auction (Ptr 0) 53 reference_world) \<noteq> reference_world"
  using PlaceBid_rejects_without_mutation [of 40 reference_world 0 int reference_auction]
        PlaceBid_rejects_without_mutation [of 90 reference_world 0 int reference_auction]
        PlaceBid_rejects_without_mutation [of 50 reference_world 0 int reference_auction]
        PlaceBid_rejects_without_mutation [of 53 reference_world 0 int reference_auction]
  by (simp add: reference_world_def auction1_bidders_def createBidder_def empty_world_def)

subsection \<open>The current bid stays between its bounds and never decreases\<close>



text \<open>What \<open>PlaceBid\<close> leaves behind when all three checks pass.\<close>

lemma PlaceBid_accepted:
  "\<not> x < StartingBid (heap w b) \<Longrightarrow> \<not> x > MaxBid (heap w b) \<Longrightarrow> \<not> x \<le> CurrentBid (heap w b) \<Longrightarrow>
   snd (PlaceBid clk a (Ptr b) x w) =
     snd (sweep clk b (Bidders a) (store_LastBidTime clk b (store_CurrentBid b x w)))"
  by (simp add: PlaceBid_def split: prod.splits result.splits)

lemma PlaceBid_rejected:
  "x < StartingBid (heap w b) \<or> x > MaxBid (heap w b) \<or> x \<le> CurrentBid (heap w b) \<Longrightarrow>
   snd (PlaceBid clk a (Ptr b) x w) = w"
  by (auto simp: PlaceBid_def)

lemma PlaceBid_params [simp]:
  "ID (heap (snd (PlaceBid clk a bidder x w)) q) = ID (heap w q)"
  "Name (heap (snd (PlaceBid clk a bidder x w)) q) = Name (heap w q)"
  "StartingBid (heap (snd (PlaceBid clk a bidder x w)) q) = StartingBid (heap w q)"
  "MaxBid (heap (snd (PlaceBid clk a bidder x w)) q) = MaxBid (heap w q)"
  "AutoIncrement (heap (snd (PlaceBid clk a bidder x w)) q) = AutoIncrement (heap w q)"
proof -
  have *: "snd (PlaceBid clk a bidder x w) = w \<or>
        (\<exists>b. snd (PlaceBid clk a bidder x w) =
           snd (sweep clk b (Bidders a) (store_LastBidTime clk b (store_CurrentBid b x w))))"
  proof (cases bidder)
    case NilPtr
    then show ?thesis by (simp add: PlaceBid_def)
  next
    case (Ptr b)
    then show ?thesis
      using PlaceBid_accepted [of x w b clk a] PlaceBid_rejected [of x w b clk a] by blast
  qed
  show "ID (heap (snd (PlaceBid clk a bidder x w)) q) = ID (heap w q)"
    using * by auto
  show "Name (heap (snd (PlaceBid clk a bidder x w)) q) = Name (heap w q)"
    using * by auto
  show "StartingBid (heap (snd (PlaceBid clk a bidder x w)) q) = StartingBid (heap w q)"
    using * by auto
  show "MaxBid (heap (snd (PlaceBid clk a bidder x w)) q) = MaxBid (heap w q)"
    using * by auto
  show "AutoIncrement (heap (snd (PlaceBid clk a bidder x w)) q) = AutoIncrement (heap w q)"
    using * by auto
qed




subsection \<open>The sweep in closed form\<close>

lemma visit_LastBidTime:
  "visit i (r\<lparr>LastBidTime := s\<rparr>) = (visit i r)\<lparr>LastBidTime := s\<rparr>"
  by (simp add: visit_def)

lemma visits_LastBidTime:
  "(visit i ^^ n) (r\<lparr>LastBidTime := s\<rparr>) = ((visit i ^^ n) r)\<lparr>LastBidTime := s\<rparr>"
  by (induction n) (simp_all add: visit_LastBidTime)

lemma raise_is_visit:
  assumes "ID (heap w p) \<noteq> i"
    and "CurrentBid (heap w p) + AutoIncrement (heap w p) \<le> MaxBid (heap w p)"
  shows "heap (store_LastBidTime clk p
            (store_CurrentBid p (CurrentBid (heap w p) + AutoIncrement (heap w p)) w)) p
         = (visit i (heap w p))\<lparr>LastBidTime := clk (ticks w)\<rparr>"
  using assms by (simp add: visit_def store_LastBidTime_def store_CurrentBid_def)

lemma no_raise_is_visit:
  assumes "\<not> (ID r \<noteq> i \<and> CurrentBid r + AutoIncrement r \<le> MaxBid r)"
  shows "visit i r = r"
  using assms by (auto simp: visit_def)

text \<open>
  Time aside, the sweep applies \<open>visit\<close> to every record as many times as its list points
  to it.
\<close>

lemma sweep_visits:
  "NilPtr \<notin> set ps \<Longrightarrow>
   (heap (snd (sweep clk b ps w)) q)\<lparr>LastBidTime := t\<rparr> =
     ((visit (ID (heap w b)) ^^ count_list ps (Ptr q)) (heap w q))\<lparr>LastBidTime := t\<rparr>"
proof (induction clk b ps w rule: sweep.induct)
  case (1 clk b w)
  then show ?case by simp
next
  case (2 clk b rest w)
  then show ?case by simp
next
  case (3 clk b p rest w)
  let ?i = "ID (heap w b)"
  let ?n = "count_list rest (Ptr q)"
  show ?case
  proof (cases "ID (heap w p) \<noteq> ?i \<and>
                CurrentBid (heap w p) + AutoIncrement (heap w p) \<le> MaxBid (heap w p)")
    case True
    let ?w1 = "store_LastBidTime clk p
                 (store_CurrentBid p (CurrentBid (heap w p) + AutoIncrement (heap w p)) w)"
    have IH: "(heap (snd (sweep clk b rest ?w1)) q)\<lparr>LastBidTime := t\<rparr> =
              ((visit ?i ^^ ?n) (heap ?w1 q))\<lparr>LastBidTime := t\<rparr>"
      using "3.IH"(1) True "3.prems" by simp
    show ?thesis
    proof (cases "q = p")
      case True
      have "heap ?w1 q = (visit ?i (heap w q))\<lparr>LastBidTime := clk (ticks w)\<rparr>"
        using raise_is_visit [of w p ?i clk] \<open>ID (heap w p) \<noteq> ?i \<and> _\<close> True by simp
      then have "((visit ?i ^^ ?n) (heap ?w1 q))\<lparr>LastBidTime := t\<rparr> =
                 ((visit ?i ^^ Suc ?n) (heap w q))\<lparr>LastBidTime := t\<rparr>"
        by (simp add: visits_LastBidTime funpow_swap1)
      with IH True \<open>ID (heap w p) \<noteq> ?i \<and> _\<close> show ?thesis by simp
    next
      case False
      with IH True show ?thesis by simp
    qed
  next
    case False
    have IH: "(heap (snd (sweep clk b rest w)) q)\<lparr>LastBidTime := t\<rparr> =
              ((visit ?i ^^ ?n) (heap w q))\<lparr>LastBidTime := t\<rparr>"
      using "3.IH"(2,3) False "3.prems" by auto
    show ?thesis
    proof (cases "q = p")
      case True
      have "visit ?i (heap w q) = heap w q"
        using no_raise_is_visit [of "heap w p" ?i] False True by simp
      then have "(visit ?i ^^ Suc ?n) (heap w q) = (visit ?i ^^ ?n) (heap w q)"
        by (simp add: funpow_swap1)
      with IH True False show ?thesis by auto
    next
      case False
      with IH \<open>\<not> (ID (heap w p) \<noteq> ?i \<and> _)\<close> show ?thesis by auto
    qed
  qed
qed




subsection \<open>Accepted bids\<close>









subsection \<open>The winner\<close>

lemma isWinner_outbids: "isWinner h (Ptr c) (Ptr b) = Returns (outbids h b c)"
  by (simp add: outbids_def)

lemma scan_winner_append:
  "scan_winner h c (xs @ ys) =
     (case scan_winner h c xs of NilDeref \<Rightarrow> NilDeref | Returns c' \<Rightarrow> scan_winner h c' ys)"
  by (induction xs arbitrary: c) (auto split: result.splits bool.splits)

lemma scan_winner_keeps:
  "\<forall>q\<in>set post. \<not> outbids h q r \<Longrightarrow> scan_winner h (Ptr r) (map Ptr post) = Returns (Ptr r)"
  by (induction post) (simp_all add: isWinner_outbids del: isWinner.simps)

lemma scan_winner_reaches:
  "outbids h r c \<Longrightarrow> \<forall>q\<in>set pre. outbids h r q \<Longrightarrow>
   scan_winner h (Ptr c) (map Ptr (pre @ r # post)) = scan_winner h (Ptr r) (map Ptr post)"
proof (induction pre arbitrary: c)
  case Nil
  then show ?case by (simp add: isWinner_outbids del: isWinner.simps)
next
  case (Cons q pre)
  then show ?case
    by (cases "outbids h q c") (simp_all add: isWinner_outbids del: isWinner.simps)
qed

lemma scan_winner_first_best:
  assumes "\<forall>q\<in>set pre. outbids h r q" and "\<forall>q\<in>set post. \<not> outbids h q r"
  shows "scan_winner h NilPtr (map Ptr (pre @ r # post)) = Returns (Ptr r)"
proof (cases pre)
  case Nil
  with assms(2) show ?thesis by (simp add: scan_winner_keeps)
next
  case (Cons c pre')
  with assms(1) have "outbids h r c" "\<forall>q\<in>set pre'. outbids h r q" by simp_all
  then have "scan_winner h (Ptr c) (map Ptr (pre' @ r # post)) =
             scan_winner h (Ptr r) (map Ptr post)"
    by (rule scan_winner_reaches)
  with Cons assms(2) show ?thesis by (simp add: scan_winner_keeps)
qed


lemma DetermineWinner_beats_all:
  assumes "Bidders a = map Ptr as" and "p \<in> set as"
    and "\<forall>q\<in>set as. q \<noteq> p \<longrightarrow> outbids (heap w) p q"
  shows "DetermineWinner a w = Returns (Ptr p)"
proof -
  from \<open>p \<in> set as\<close> obtain pre post where as: "as = pre @ p # post" and "p \<notin> set pre"
    by (auto dest: split_list_first)
  have "\<forall>q\<in>set pre. outbids (heap w) p q"
    using assms(3) as \<open>p \<notin> set pre\<close> by auto
  moreover have "\<forall>q\<in>set post. \<not> outbids (heap w) q p"
    using assms(3) as by (fastforce simp: outbids_def)
  ultimately have "scan_winner (heap w) NilPtr (map Ptr (pre @ p # post)) = Returns (Ptr p)"
    by (rule scan_winner_first_best)
  then show ?thesis
    by (simp only: DetermineWinner_def assms(1) as)
qed

text \<open>
  Claim C2. \<open>DetermineWinner\<close> scans the bidders in stored order and tracks a current
  best: the winner over a list extended by one bidder \<open>b\<close> is \<open>b\<close> when the winner over
  the list is unset, when the current bid of \<open>b\<close> is higher, or when it is equal and the
  last bid time of \<open>b\<close> is strictly earlier; otherwise it is the winner over the list.
  Consequently, on a list without nil pointers, a bidder whose current bid is strictly
  above that of every other bidder is returned, and so is a bidder with a highest
  current bid whose last bid time is strictly earlier than that of every other bidder
  with the same current bid.
\<close>

theorem DetermineWinner_scan:
  "DetermineWinner \<lparr>AuctionID = i, Bidders = map Ptr (as @ [b])\<rparr> w =
     (case DetermineWinner \<lparr>AuctionID = i, Bidders = map Ptr as\<rparr> w of
        NilDeref \<Rightarrow> NilDeref
      | Returns NilPtr \<Rightarrow> Returns (Ptr b)
      | Returns (Ptr c) \<Rightarrow>
          Returns (if CurrentBid (heap w b) > CurrentBid (heap w c) \<or>
                      (CurrentBid (heap w b) = CurrentBid (heap w c) \<and>
                       LastBidTime (heap w b) < LastBidTime (heap w c))
                   then Ptr b else Ptr c)) \<and>
   (p \<in> set as \<and> (\<forall>q\<in>set as. q \<noteq> p \<longrightarrow> CurrentBid (heap w q) < CurrentBid (heap w p)) \<longrightarrow>
      DetermineWinner \<lparr>AuctionID = i, Bidders = map Ptr as\<rparr> w = Returns (Ptr p)) \<and>
   (p \<in> set as \<and> (\<forall>q\<in>set as. CurrentBid (heap w q) \<le> CurrentBid (heap w p)) \<and>
    (\<forall>q\<in>set as. q \<noteq> p \<and> CurrentBid (heap w q) = CurrentBid (heap w p) \<longrightarrow>
       LastBidTime (heap w p) < LastBidTime (heap w q)) \<longrightarrow>
      DetermineWinner \<lparr>AuctionID = i, Bidders = map Ptr as\<rparr> w = Returns (Ptr p))"
proof (intro conjI impI)
  show "DetermineWinner \<lparr>AuctionID = i, Bidders = map Ptr (as @ [b])\<rparr> w =
     (case DetermineWinner \<lparr>AuctionID = i, Bidders = map Ptr as\<rparr> w of
        NilDeref \<Rightarrow> NilDeref
      | Returns NilPtr \<Rightarrow> Returns (Ptr b)
      | Returns (Ptr c) \<Rightarrow>
          Returns (if CurrentBid (heap w b) > CurrentBid (heap w c) \<or>
                      (CurrentBid (heap w b) = CurrentBid (heap w c) \<and>
                       LastBidTime (heap w b) < LastBidTime (heap w c))
                   then Ptr b else Ptr c))"
    by (simp add: DetermineWinner_def scan_winner_append split: result.splits ptr.splits bool.splits)
next
  assume "p \<in> set as \<and>
    (\<forall>q\<in>set as. q \<noteq> p \<longrightarrow> CurrentBid (heap w q) < CurrentBid (heap w p))"
  then show "DetermineWinner \<lparr>AuctionID = i, Bidders = map Ptr as\<rparr> w = Returns (Ptr p)"
    by (intro DetermineWinner_beats_all [of _ as]) (auto simp: outbids_def)
next
  assume "p \<in> set as \<and> (\<forall>q\<in>set as. CurrentBid (heap w q) \<le> CurrentBid (heap w p)) \<and>
    (\<forall>q\<in>set as. q \<noteq> p \<and> CurrentBid (heap w q) = CurrentBid (heap w p) \<longrightarrow>
       LastBidTime (heap w p) < LastBidTime (heap w q))"
  then show "DetermineWinner \<lparr>AuctionID = i, Bidders = map Ptr as\<rparr> w = Returns (Ptr p)"
    by (intro DetermineWinner_beats_all [of _ as]) (auto simp: outbids_def order.strict_iff_order)
qed

theorem DetermineWinner_scan_witness:
  "DetermineWinner \<lparr>AuctionID = 9, Bidders = map Ptr ([0, 1] @ [2])\<rparr> reference_world
     = Returns (Ptr 1) \<and>
   DetermineWinner \<lparr>AuctionID = 9, Bidders = map Ptr [0, 1, 2]\<rparr> reference_world
     = Returns (Ptr 1) \<and>
   CurrentBid (heap (snd (PlaceBid int reference_auction (Ptr 0) 20
       (tie_bidders int empty_world))) 1) = 55 \<and>
   CurrentBid (heap (snd (PlaceBid int reference_auction (Ptr 0) 20
       (tie_bidders int empty_world))) 2) = 55 \<and>
   DetermineWinner \<lparr>AuctionID = 9, Bidders = map Ptr [0, 1, 2]\<rparr>
       (snd (PlaceBid int reference_auction (Ptr 0) 20 (tie_bidders int empty_world)))
     = Returns (Ptr 1)"
  using DetermineWinner_scan
          [where i = 9 and as = "[0, 1]" and b = 2 and w = reference_world and p = 1]
        DetermineWinner_scan
          [where i = 9 and as = "[0, 1, 2]" and b = 2 and w = reference_world and p = 1]
        DetermineWinner_scan
          [where i = 9 and as = "[0, 1, 2]" and b = 2 and p = 1 and
             w = "snd (PlaceBid int reference_auction (Ptr 0) 20 (tie_bidders int empty_world))"]
  by (simp add: reference_auction_def reference_world_def auction1_bidders_def
        tie_bidders_def createBidder_def empty_world_def PlaceBid_def DetermineWinner_def
        store_CurrentBid_def store_LastBidTime_def)

text \<open>
  Claim C10. Let \<open>p\<close> be a bidder of a list without nil pointers that has a highest
  current bid, such that no bidder with the same current bid has an earlier last bid
  time, and such that no bidder before \<open>p\<close> in the list is tied with \<open>p\<close> on both the
  current bid and the last bid time. Then \<open>DetermineWinner\<close> returns \<open>p\<close>: among the
  bidders tied on the highest current bid and on the last bid time, the one stored
  first wins, whatever follows it.
\<close>

theorem DetermineWinner_earliest_of_tied:
  assumes "Bidders a = map Ptr (pre @ p # post)"
    and "\<forall>q\<in>set (pre @ post). CurrentBid (heap w q) \<le> CurrentBid (heap w p)"
    and "\<forall>q\<in>set (pre @ post). CurrentBid (heap w q) = CurrentBid (heap w p) \<longrightarrow>
           LastBidTime (heap w p) \<le> LastBidTime (heap w q)"
    and "\<forall>q\<in>set pre. \<not> (CurrentBid (heap w q) = CurrentBid (heap w p) \<and>
           LastBidTime (heap w q) = LastBidTime (heap w p))"
  shows "DetermineWinner a w = Returns (Ptr p)"
proof -
  have "outbids (heap w) p q" if "q \<in> set pre" for q
  proof (cases "CurrentBid (heap w q) = CurrentBid (heap w p)")
    case True
    with that assms(3,4) have "LastBidTime (heap w p) \<le> LastBidTime (heap w q)"
      "LastBidTime (heap w q) \<noteq> LastBidTime (heap w p)" by auto
    with True show ?thesis by (simp add: outbids_def)
  next
    case False
    with that assms(2) have "CurrentBid (heap w q) < CurrentBid (heap w p)"
      by (simp add: less_le)
    then show ?thesis by (simp add: outbids_def)
  qed
  moreover have "\<not> outbids (heap w) q p" if "q \<in> set post" for q
  proof -
    from that assms(2,3) have "CurrentBid (heap w q) \<le> CurrentBid (heap w p)"
      "CurrentBid (heap w q) = CurrentBid (heap w p) \<longrightarrow>
         LastBidTime (heap w p) \<le> LastBidTime (heap w q)" by auto
    then show ?thesis by (auto simp: outbids_def)
  qed
  ultimately have "scan_winner (heap w) NilPtr (map Ptr (pre @ p # post)) = Returns (Ptr p)"
    by (intro scan_winner_first_best) auto
  then show ?thesis
    by (simp only: DetermineWinner_def assms(1))
qed

theorem DetermineWinner_earliest_of_tied_witness:
  "CurrentBid (heap (tie_bidders (\<lambda>n. 0) empty_world) 1)
     = CurrentBid (heap (tie_bidders (\<lambda>n. 0) empty_world) 2) \<and>
   LastBidTime (heap (tie_bidders (\<lambda>n. 0) empty_world) 1)
     = LastBidTime (heap (tie_bidders (\<lambda>n. 0) empty_world) 2) \<and>
   DetermineWinner reference_auction (tie_bidders (\<lambda>n. 0) empty_world) = Returns (Ptr 1)"
  using DetermineWinner_earliest_of_tied
          [of reference_auction "[0]" 1 "[2]" "tie_bidders (\<lambda>n. 0) empty_world"]
  by (simp add: reference_auction_def tie_bidders_def createBidder_def empty_world_def)

subsection \<open>The order of the sweep\<close>

lemma PlaceBid_in_order_stored:
  "PlaceBid_in_order (Bidders a) clk a bidder x w = PlaceBid clk a bidder x w"
  by (simp add: PlaceBid_in_order_def PlaceBid_def)

lemma PlaceBid_in_order_accepted:
  "\<not> x < StartingBid (heap w b) \<Longrightarrow> \<not> x > MaxBid (heap w b) \<Longrightarrow> \<not> x \<le> CurrentBid (heap w b) \<Longrightarrow>
   PlaceBid_in_order order clk a (Ptr b) x w =
     (case fst (sweep clk b order (store_LastBidTime clk b (store_CurrentBid b x w))) of
        NilDeref \<Rightarrow> NilDeref | Returns u \<Rightarrow> Returns None,
      snd (sweep clk b order (store_LastBidTime clk b (store_CurrentBid b x w))))"
  by (simp add: PlaceBid_in_order_def split: prod.splits result.splits)

text \<open>
  Claim C6, as stated, fails. The sweep reads the clock once for every bidder it raises,
  so its order decides which of two raised bidders has the earlier last bid time. Here
  the auction passes \<open>NewAuction\<close>, the clock advances by one unit at each reading and
  the bid of the first bidder raises the other two to the same amount: swept in stored
  order the second bidder wins, swept in the order first, third, second the third
  bidder wins.
\<close>

theorem sweep_order_is_observable:
  "NewAuction 9 \<lparr>NewAuctionConfig.Bidders = [Ptr 0, Ptr 1, Ptr 2]\<rparr> (tie_bidders int empty_world)
     = Returns (Inr reference_auction) \<and>
   mset [Ptr 0, Ptr 2, Ptr 1] = mset (Bidders reference_auction) \<and>
   fst (PlaceBid int reference_auction (Ptr 0) 20 (tie_bidders int empty_world)) = Returns None \<and>
   DetermineWinner reference_auction
       (snd (PlaceBid int reference_auction (Ptr 0) 20 (tie_bidders int empty_world)))
     = Returns (Ptr 1) \<and>
   DetermineWinner reference_auction
       (snd (PlaceBid_in_order [Ptr 0, Ptr 2, Ptr 1] int reference_auction (Ptr 0) 20
              (tie_bidders int empty_world)))
     = Returns (Ptr 2)"
  by (simp add: reference_auction_def tie_bidders_def createBidder_def empty_world_def
        NewAuction_def validateAuctionData_def
        PlaceBid_def PlaceBid_in_order_def DetermineWinner_def
        store_CurrentBid_def store_LastBidTime_def)

text \<open>
  Claim C6, amended. When \<open>PlaceBid\<close> returns nil, the same call with the sweep taken
  over any permutation of the stored bidder list returns nil too, and the two resulting
  heaps hold the same record at every address except for \<open>LastBidTime\<close>: identifiers,
  names, bounds, increments and current bids do not depend on the order of the sweep.
\<close>

theorem sweep_order_changes_LastBidTime_only:
  assumes "mset order = mset (Bidders a)"
    and "fst (PlaceBid clk a bidder x w) = Returns None"
  shows "fst (PlaceBid_in_order order clk a bidder x w) = Returns None \<and>
         (\<forall>q. (heap (snd (PlaceBid_in_order order clk a bidder x w)) q)\<lparr>LastBidTime := 0\<rparr> =
              (heap (snd (PlaceBid clk a bidder x w)) q)\<lparr>LastBidTime := 0\<rparr>)"
proof (cases bidder)
  case NilPtr
  with assms(2) show ?thesis by (simp add: PlaceBid_def)
next
  case (Ptr b)
  let ?w1 = "store_LastBidTime clk b (store_CurrentBid b x w)"
  have checks: "\<not> x < StartingBid (heap w b)" "\<not> x > MaxBid (heap w b)"
    "\<not> x \<le> CurrentBid (heap w b)"
    using assms(2) Ptr by (auto simp: PlaceBid_def split: if_splits)
  have stored: "PlaceBid clk a (Ptr b) x w =
      (case fst (sweep clk b (Bidders a) ?w1) of NilDeref \<Rightarrow> NilDeref | Returns u \<Rightarrow> Returns None,
       snd (sweep clk b (Bidders a) ?w1))"
    using PlaceBid_in_order_accepted [OF checks, of "Bidders a" clk a]
    by (simp add: PlaceBid_in_order_stored)
  with assms(2) Ptr have "fst (sweep clk b (Bidders a) ?w1) = Returns ()"
    by (simp split: result.splits)
  then have nonil: "NilPtr \<notin> set (Bidders a)"
    by (simp add: sweep_Returns_iff)
  have "set order = set (Bidders a)"
    using assms(1) by (rule mset_eq_setD)
  with nonil have nonil': "NilPtr \<notin> set order" by simp
  then have ret: "fst (sweep clk b order ?w1) = Returns ()"
    by (simp add: sweep_Returns_iff)
  have counts: "count_list order p = count_list (Bidders a) p" for p
    using assms(1) by (metis count_mset)
  have "(heap (snd (sweep clk b order ?w1)) q)\<lparr>LastBidTime := 0\<rparr> =
        (heap (snd (sweep clk b (Bidders a) ?w1)) q)\<lparr>LastBidTime := 0\<rparr>" for q
    using sweep_visits [OF nonil, where clk = clk and b = b and w = ?w1 and q = q and t = 0]
          sweep_visits [OF nonil', where clk = clk and b = b and w = ?w1 and q = q and t = 0]
    by (simp add: counts)
  with ret Ptr stored show ?thesis
    by (simp add: PlaceBid_in_order_accepted [OF checks])
qed

theorem sweep_order_changes_LastBidTime_only_witness:
  "mset [Ptr 0, Ptr 2, Ptr 1] = mset (Bidders reference_auction) \<and>
   fst (PlaceBid int reference_auction (Ptr 0) 20 (tie_bidders int empty_world)) = Returns None \<and>
   fst (PlaceBid_in_order [Ptr 0, Ptr 2, Ptr 1] int reference_auction (Ptr 0) 20
          (tie_bidders int empty_world)) = Returns None \<and>
   (\<forall>q. (heap (snd (PlaceBid_in_order [Ptr 0, Ptr 2, Ptr 1] int reference_auction (Ptr 0) 20
                     (tie_bidders int empty_world))) q)\<lparr>LastBidTime := 0\<rparr> =
        (heap (snd (PlaceBid int reference_auction (Ptr 0) 20 (tie_bidders int empty_world))) q)
          \<lparr>LastBidTime := 0\<rparr>)"
proof -
  have m: "mset [Ptr 0, Ptr 2, Ptr 1] = mset (Bidders reference_auction)"
    by (simp add: reference_auction_def)
  have r: "fst (PlaceBid int reference_auction (Ptr 0) 20 (tie_bidders int empty_world))
             = Returns None"
    by (simp add: reference_auction_def tie_bidders_def createBidder_def empty_world_def
          PlaceBid_def store_CurrentBid_def store_LastBidTime_def)
  from sweep_order_changes_LastBidTime_only [OF m r] m r show ?thesis by simp
qed

subsection \<open>Construction\<close>















subsection \<open>The scenario of the test\<close>

lemma bidding_rounds_more_fuel:
  "bidding_rounds n clk a bs w = Some r \<Longrightarrow> bidding_rounds (n + k) clk a bs w = Some r"
proof (induction n arbitrary: w)
  case 0
  then show ?case by simp
next
  case (Suc n)
  obtain res w' where round: "bidding_round clk a bs False w = (res, w')"
    by (cases "bidding_round clk a bs False w")
  show ?case
  proof (cases res)
    case NilDeref
    with round Suc.prems show ?thesis by simp
  next
    case (Returns active)
    show ?thesis
    proof (cases active)
      case True
      with round Returns Suc.prems have "bidding_rounds n clk a bs w' = Some r" by simp
      then have "bidding_rounds (n + k) clk a bs w' = Some r" by (rule Suc.IH)
      with round Returns True show ?thesis by simp
    next
      case False
      with round Returns Suc.prems show ?thesis by simp
    qed
  qed
qed

lemma run_scenario_more_fuel:
  assumes "run_scenario n clk fresh bs w = Some r"
  shows "run_scenario (n + k) clk fresh bs w = Some r"
proof (cases "NewAuction fresh \<lparr>NewAuctionConfig.Bidders = bs\<rparr> w")
  case NilDeref
  with assms show ?thesis by (simp add: run_scenario_def)
next
  case (Returns res)
  show ?thesis
  proof (cases res)
    case (Inl err)
    with Returns assms show ?thesis by (simp add: run_scenario_def)
  next
    case (Inr auction)
    show ?thesis
    proof (cases "bidding_rounds n clk auction bs w")
      case None
      with Returns Inr assms show ?thesis by (simp add: run_scenario_def)
    next
      case (Some out)
      then have "bidding_rounds (n + k) clk auction bs w = Some out"
        by (rule bidding_rounds_more_fuel)
      with Some Returns Inr assms show ?thesis by (simp add: run_scenario_def)
    qed
  qed
qed

lemma auction1_six_rounds:
  assumes "i1 \<noteq> i2" "i1 \<noteq> i3" "i2 \<noteq> i3"
  shows "run_scenario 6 clk fresh [Ptr 0, Ptr 1, Ptr 2] (auction1_bidders clk i1 i2 i3 w)
           = Some (Returns ''Pat'')"
  using assms
  by (simp add: run_scenario_def NewAuction_def validateAuctionData_def auction1_bidders_def
        createBidder_def PlaceBid_def DetermineWinner_def store_CurrentBid_def
        store_LastBidTime_def numeral_nat)

lemma auction1_five_rounds_not_enough:
  assumes "i1 \<noteq> i2" "i1 \<noteq> i3" "i2 \<noteq> i3"
  shows "run_scenario 5 clk fresh [Ptr 0, Ptr 1, Ptr 2] (auction1_bidders clk i1 i2 i3 w)
           = None"
  using assms
  by (simp add: run_scenario_def NewAuction_def validateAuctionData_def auction1_bidders_def
        createBidder_def PlaceBid_def DetermineWinner_def store_CurrentBid_def
        store_LastBidTime_def numeral_nat)

text \<open>
  Claim C7. Sasha (50 to 80, step 3), John (60 to 82, step 2) and Pat (55 to 85, step 5)
  are created with pairwise distinct identifiers and their current bids at their starting
  bids. The auction is built over them and every bidder in turn places its current bid
  plus its increment while that is affordable, round after round, until a round accepts
  no bid. The loop ends after six rounds (any fuel from six on gives the same result),
  nothing panics, and the winner then determined is named Pat, whatever the clock
  returns.
\<close>

theorem auction1_winner_is_Pat:
  assumes "distinct [i1, i2, i3]"
  shows "run_scenario (6 + k) clk fresh [Ptr 0, Ptr 1, Ptr 2] (auction1_bidders clk i1 i2 i3 w)
           = Some (Returns ''Pat'')"
proof -
  from assms have "i1 \<noteq> i2" "i1 \<noteq> i3" "i2 \<noteq> i3" by simp_all
  then have "run_scenario 6 clk fresh [Ptr 0, Ptr 1, Ptr 2] (auction1_bidders clk i1 i2 i3 w)
               = Some (Returns ''Pat'')"
    by (rule auction1_six_rounds)
  then show ?thesis by (rule run_scenario_more_fuel)
qed

theorem auction1_winner_is_Pat_witness:
  "distinct [1, 2, 3 :: uuid] \<and>
   run_scenario 6 int 9 [Ptr 0, Ptr 1, Ptr 2] reference_world = Some (Returns ''Pat'') \<and>
   run_scenario 10 int 9 [Ptr 0, Ptr 1, Ptr 2] reference_world = Some (Returns ''Pat'')"
proof -
  have d: "distinct [1, 2, 3 :: uuid]" by simp
  from auction1_winner_is_Pat [OF d, of 0 int 9 empty_world]
       auction1_winner_is_Pat [OF d, of 4 int 9 empty_world] d
  show ?thesis by (simp add: reference_world_def)
qed

end
